theory Spec2Isabelle
  imports Main "HOL-Library.Product_Lexorder" "HOL-Library.List_Lexorder"
begin

section \<open>Data model of \<open>qrl/core/p2pfactory.py\<close>\<close>

text \<open>
  A peer is a live \<open>P2PProtocol\<close> session object; Python compares such objects by
  identity, so a peer is modelled by the number that identifies it. A hash is a
  Python \<open>bytes\<close> value: a list of byte values, ordered lexicographically as
  Python orders \<open>bytes\<close>. A timer is the identity of the \<open>IDelayedCall\<close> that
  \<open>reactor.callLater\<close> returns.
\<close>

type_synonym peer = nat
type_synonym bytes = "nat list"
type_synonym timer = nat

text \<open>The protobuf message \<open>qrl_pb2.MR\<close>; \<open>qrl_pb2.MR()\<close> has every field at its default.\<close>

record MR =
  mr_hash :: bytes
  mr_type :: string
  stake_selector :: bytes
  block_number :: nat
  prev_headerhash :: bytes
  reveal_hash :: bytes

definition new_MR :: MR where
  "new_MR = \<lparr>mr_hash = [], mr_type = [], stake_selector = [], block_number = 0,
     prev_headerhash = [], reveal_hash = []\<rparr>"

text \<open>
  The framing functions \<open>wrap_message\<close> and \<open>MessageToJson\<close> belong to the protocol layer
  and are not part of this file: a framed message is kept as the pair of its kind and
  the message record it carries (\<open>None\<close> for \<open>wrap_message('PING')\<close>).
\<close>

datatype wire_message = wrap_message string "MR option"

text \<open>
  Exceptions. \<open>Empty\<close> is \<open>queue.Empty\<close>, \<open>KeyError\<close> is what indexing a dict with an
  absent key raises, \<open>Unexpected\<close> stands for any other exception a collaborator raises.
\<close>

datatype exn = Empty | KeyError bytes | Unexpected string

datatype outcome = Returned | Raised exn

text \<open>The callables handed to \<open>reactor.callLater\<close>.\<close>

datatype callback = Call_RFM MR | Call_select_best_bkmr | Call_setPOS

text \<open>
  Every call that leaves the factory is appended, in program order, to one trace:
  a write to a peer's transport, a \<open>reactor.callLater\<close>, a \<open>logger\<close> call and
  a \<open>master_mr.register\<close>.
\<close>

datatype effect =
    Write peer wire_message
  | CallLater nat callback
  | Log_info string
  | Log_error string
  | Log_error_exn exn
  | Register bytes string string

text \<open>The request state of one hash (\<open>MessageRequest\<close> in the registry).\<close>

record MessageRequest =
  peers_connection_list :: "peer list"
  already_requested_peers :: "peer list"
  callLater :: "timer option"

text \<open>
  The factory, with the registry \<open>master_mr\<close> whose two dictionaries \<open>RFM\<close> and
  \<open>broadcast\<close> read and write directly, and with what the collaborators answer:
  \<open>height\<close> and \<open>get_block_score\<close> of the buffered chain (the score lookup may raise),
  \<open>transport_raises p\<close> (the exception \<open>p.transport.write\<close> raises, \<open>None\<close> when the
  write succeeds), \<open>config.dev.message_receipt_timeout\<close> and the clock \<open>time.time()\<close>.
  \<open>bkmr_priorityq\<close> holds the entries of the \<open>queue.PriorityQueue\<close>.
\<close>

record P2PFactory =
  hash_msg :: "bytes \<rightharpoonup> string \<times> string"
  requested_hash :: "bytes \<rightharpoonup> MessageRequest"
  peer_connections :: "peer list"
  bkmr_blocknumber :: nat
  bkmr_priorityq :: "(int \<times> bytes) list"
  bkmr_processor :: timer
  last_ping :: "nat option"
  height :: nat
  get_block_score :: "nat \<Rightarrow> exn + int"
  transport_raises :: "peer \<Rightarrow> exn option"
  message_receipt_timeout :: nat
  time_now :: nat
  trace :: "effect list"

section \<open>Collaborators\<close>

text \<open>\<open>peer.transport.write(msg)\<close>: the write is recorded, or the transport raises.\<close>

definition transport_write :: "peer \<Rightarrow> wire_message \<Rightarrow> P2PFactory \<Rightarrow> outcome \<times> P2PFactory" where
  "transport_write p msg s =
     (case transport_raises s p of
        Some e \<Rightarrow> (Raised e, s)
      | None \<Rightarrow> (Returned, s\<lparr>trace := trace s @ [Write p msg]\<rparr>))"

text \<open>
  \<open>reactor.callLater(delay, f)\<close>: schedules the call and returns its handle, which is
  the position of the scheduling event in the trace.
\<close>

definition reactor_callLater :: "nat \<Rightarrow> callback \<Rightarrow> P2PFactory \<Rightarrow> timer \<times> P2PFactory" where
  "reactor_callLater delay f s =
     (length (trace s), s\<lparr>trace := trace s @ [CallLater delay f]\<rparr>)"

text \<open>
  \<open>PriorityQueue.get_nowait()\<close>: raises \<open>queue.Empty\<close> on an empty queue, otherwise
  removes and returns the least entry; entries are \<open>(score, hash)\<close> tuples, compared
  as Python compares tuples (score first, then hash).
\<close>

fun get_nowait :: "(int \<times> bytes) list \<Rightarrow> exn + ((int \<times> bytes) \<times> (int \<times> bytes) list)" where
  "get_nowait [] = Inl Empty"
| "get_nowait (x # xs) = (let m = fold min xs x in Inr (m, remove1 m (x # xs)))"

text \<open>
  Modelled from the spec: \<open>master_mr.register(hash, payload, type)\<close>, a method of the
  registry class, which is not in this file. The spec, section 4.1: it "marks hash as
  fully known and stores payload/type so future requests from peers can be answered;
  must be idempotent".
\<close>

definition register :: "bytes \<Rightarrow> string \<Rightarrow> string \<Rightarrow> P2PFactory \<Rightarrow> P2PFactory" where
  "register msg_hash msg_json msg_type s =
     s\<lparr>hash_msg := (hash_msg s)(msg_hash \<mapsto> (msg_json, msg_type)),
       trace := trace s @ [Register msg_hash msg_json msg_type]\<rparr>"

section \<open>\<open>RFM\<close>: request full message\<close>

text \<open>
  The \<open>for peer in peers_list\<close> loop of \<open>RFM\<close>, on the peers still to visit.
  \<open>message_request\<close> is the request state of \<open>data.hash\<close>, which the loop changes in place
  (and then returns at once). Leaving the loop deletes the request state.
\<close>

fun RFM_loop :: "MR \<Rightarrow> MessageRequest \<Rightarrow> peer list \<Rightarrow> P2PFactory \<Rightarrow> outcome \<times> P2PFactory" where
  "RFM_loop data message_request [] s =
     (Returned,
      if mr_hash data \<in> dom (requested_hash s)
      then s\<lparr>requested_hash := (requested_hash s)(mr_hash data := None)\<rparr>
      else s)"
| "RFM_loop data message_request (peer # rest) s =
     (if peer \<in> set (already_requested_peers message_request)
      then RFM_loop data message_request rest s
      else
        let asked = message_request\<lparr>already_requested_peers :=
                      already_requested_peers message_request @ [peer]\<rparr>;
            s1 = s\<lparr>requested_hash := (requested_hash s)(mr_hash data \<mapsto> asked)\<rparr>
        in case transport_write peer (wrap_message ''SFM'' (Some data)) s1 of
             (Raised e, s2) \<Rightarrow> (Raised e, s2)
           | (Returned, s2) \<Rightarrow>
               let (call_later_obj, s3) =
                     reactor_callLater (message_receipt_timeout s2) (Call_RFM data) s2
               in (Returned,
                   s3\<lparr>requested_hash := (requested_hash s3)(mr_hash data \<mapsto>
                        asked\<lparr>callLater := Some call_later_obj\<rparr>)\<rparr>))"

definition RFM :: "MR \<Rightarrow> P2PFactory \<Rightarrow> outcome \<times> P2PFactory" where
  "RFM data s =
     (let msg_hash = mr_hash data in
      if msg_hash \<in> dom (hash_msg s)
      then (Returned,
            if msg_hash \<in> dom (requested_hash s)
            then s\<lparr>requested_hash := (requested_hash s)(msg_hash := None)\<rparr>
            else s)
      else case requested_hash s msg_hash of
             None \<Rightarrow> (Raised (KeyError msg_hash), s)
           | Some message_request \<Rightarrow>
               RFM_loop data message_request (peers_connection_list message_request) s)"

section \<open>\<open>select_best_bkmr\<close>: the selector step\<close>

text \<open>The statements of the \<open>try\<close> block after the score test (lines 123 to 129).\<close>

definition request_and_reschedule :: "bytes \<Rightarrow> P2PFactory \<Rightarrow> outcome \<times> P2PFactory" where
  "request_and_reschedule dhash s =
     (let data = new_MR\<lparr>mr_hash := dhash, mr_type := ''BK''\<rparr> in
      case RFM data s of
        (Raised e, s1) \<Rightarrow> (Raised e, s1)
      | (Returned, s1) \<Rightarrow>
          let (t, s2) = reactor_callLater 5 Call_select_best_bkmr s1
          in (Returned, s2\<lparr>bkmr_processor := t\<rparr>))"

text \<open>The \<open>try\<close> block of \<open>select_best_bkmr\<close>.\<close>

definition select_best_bkmr_try :: "P2PFactory \<Rightarrow> outcome \<times> P2PFactory" where
  "select_best_bkmr_try s =
     (let blocknumber = bkmr_blocknumber s in
      case get_nowait (bkmr_priorityq s) of
        Inl e \<Rightarrow> (Raised e, s)
      | Inr ((dscore, dhash), q) \<Rightarrow>
          let s1 = s\<lparr>bkmr_priorityq := q\<rparr> in
          if blocknumber \<le> height s1
          then case get_block_score s1 blocknumber of
                 Inl e \<Rightarrow> (Raised e, s1)
               | Inr oldscore \<Rightarrow>
                   if dscore > oldscore
                   then (Returned, s1\<lparr>bkmr_priorityq := []\<rparr>)
                   else request_and_reschedule dhash s1
          else request_and_reschedule dhash s1)"

text \<open>
  The whole step: \<open>queue.Empty\<close> is swallowed, any other exception is logged; the
  step itself never raises.
\<close>

definition select_best_bkmr :: "P2PFactory \<Rightarrow> P2PFactory" where
  "select_best_bkmr s =
     (case select_best_bkmr_try s of
        (Returned, s1) \<Rightarrow> s1
      | (Raised Empty, s1) \<Rightarrow> s1
      | (Raised e, s1) \<Rightarrow>
          s1\<lparr>trace := trace s1 @
                [Log_error ''select_best_bkmr Unexpected Exception'', Log_error_exn e]\<rparr>)"

section \<open>\<open>ping_peers\<close>, \<open>register_and_broadcast\<close> and \<open>broadcast\<close>\<close>

text \<open>The loop of \<open>ping_peers\<close>, on the peers still to visit.\<close>

fun ping_loop :: "peer list \<Rightarrow> P2PFactory \<Rightarrow> outcome \<times> P2PFactory" where
  "ping_loop [] s = (Returned, s)"
| "ping_loop (peer # rest) s =
     (case transport_write peer (wrap_message ''PING'' None) s of
        (Raised e, s1) \<Rightarrow> (Raised e, s1)
      | (Returned, s1) \<Rightarrow> ping_loop rest s1)"

definition ping_peers :: "P2PFactory \<Rightarrow> outcome \<times> P2PFactory" where
  "ping_peers s =
     (let s1 = s\<lparr>trace := trace s @ [Log_info ''<<<Transmitting network PING'']\<rparr>;
          s2 = s1\<lparr>last_ping := Some (time_now s1)\<rparr>
      in ping_loop (peer_connections s2) s2)"

text \<open>The loop of \<open>broadcast\<close>, on the peers still to visit.\<close>

fun broadcast_loop :: "peer list \<Rightarrow> MR \<Rightarrow> peer list \<Rightarrow> P2PFactory \<Rightarrow> outcome \<times> P2PFactory" where
  "broadcast_loop ignore_peers data [] s = (Returned, s)"
| "broadcast_loop ignore_peers data (peer # rest) s =
     (if peer \<in> set ignore_peers
      then broadcast_loop ignore_peers data rest s
      else case transport_write peer (wrap_message ''MR'' (Some data)) s of
             (Raised e, s1) \<Rightarrow> (Raised e, s1)
           | (Returned, s1) \<Rightarrow> broadcast_loop ignore_peers data rest s1)"

text \<open>The list \<open>ignore_peers\<close> that \<open>broadcast\<close> computes first.\<close>

definition ignore_peers_of :: "bytes \<Rightarrow> P2PFactory \<Rightarrow> peer list" where
  "ignore_peers_of msg_hash s =
     (case requested_hash s msg_hash of
        None \<Rightarrow> []
      | Some message_request \<Rightarrow> peers_connection_list message_request)"

text \<open>The record that \<open>broadcast\<close> sends: \<open>data\<close>, or a fresh one when \<open>data\<close> is \<open>None\<close>.\<close>

definition announce_of :: "bytes \<Rightarrow> string \<Rightarrow> MR option \<Rightarrow> MR" where
  "announce_of msg_hash msg_type data =
     (case data of
        None \<Rightarrow> new_MR\<lparr>mr_hash := msg_hash, mr_type := msg_type\<rparr>
      | Some d \<Rightarrow> d)"

definition broadcast :: "bytes \<Rightarrow> string \<Rightarrow> MR option \<Rightarrow> P2PFactory \<Rightarrow> outcome \<times> P2PFactory" where
  "broadcast msg_hash msg_type data s =
     broadcast_loop (ignore_peers_of msg_hash s) (announce_of msg_hash msg_type data)
       (peer_connections s) s"

definition register_and_broadcast ::
  "string \<Rightarrow> bytes \<Rightarrow> string \<Rightarrow> MR option \<Rightarrow> P2PFactory \<Rightarrow> outcome \<times> P2PFactory" where
  "register_and_broadcast msg_type msg_hash msg_json data s =
     (let s1 = register msg_hash msg_json msg_type s;
          d = (case data of None \<Rightarrow> new_MR | Some d \<Rightarrow> d);
          d1 = d\<lparr>mr_hash := msg_hash, mr_type := msg_type\<rparr>
      in broadcast msg_hash msg_type (Some d1) s1)"

section \<open>Notions used in the statements\<close>

text \<open>
  A loop that writes to the peers \<open>ps\<close> in order stops at the first write that raises:
  \<open>delivered raises ps\<close> are the peers written to before that, and \<open>write_outcome raises ps\<close>
  is how the loop ends.
\<close>

fun delivered :: "(peer \<Rightarrow> exn option) \<Rightarrow> peer list \<Rightarrow> peer list" where
  "delivered raises [] = []"
| "delivered raises (p # ps) =
     (case raises p of None \<Rightarrow> p # delivered raises ps | Some e \<Rightarrow> [])"

fun write_outcome :: "(peer \<Rightarrow> exn option) \<Rightarrow> peer list \<Rightarrow> outcome" where
  "write_outcome raises [] = Returned"
| "write_outcome raises (p # ps) =
     (case raises p of None \<Rightarrow> write_outcome raises ps | Some e \<Rightarrow> Raised e)"


text \<open>
  The candidates of a request state: the peers of its list in announce order, each
  peer once, at its first announce.
\<close>

fun candidates :: "peer list \<Rightarrow> peer list" where
  "candidates [] = []"
| "candidates (p # ps) = p # candidates (filter (\<lambda>q. q \<noteq> p) ps)"

text \<open>
  A concrete node for the examples: three connected peers, nothing known, nothing
  requested, an empty candidate queue, tracked block number 7 at chain height 7 with
  accepted score 50, and transports that accept every write.
\<close>

definition idle_node :: P2PFactory where
  "idle_node =
     \<lparr>hash_msg = Map.empty, requested_hash = Map.empty, peer_connections = [1, 2, 3],
      bkmr_blocknumber = 7, bkmr_priorityq = [], bkmr_processor = 0, last_ping = None,
      height = 7, get_block_score = (\<lambda>n. Inr 50), transport_raises = (\<lambda>p. None),
      message_receipt_timeout = 10, time_now = 1000, trace = []\<rparr>"

text \<open>A fresh request state for a hash that the peers \<open>ps\<close> announced, in that order.\<close>

definition announced_by :: "peer list \<Rightarrow> MessageRequest" where
  "announced_by ps =
     \<lparr>peers_connection_list = ps, already_requested_peers = [], callLater = None\<rparr>"

text \<open>The record that \<open>select_best_bkmr\<close> builds for a popped hash.\<close>

definition BK_request :: "bytes \<Rightarrow> MR" where
  "BK_request dhash = new_MR\<lparr>mr_hash := dhash, mr_type := ''BK''\<rparr>"

section \<open>Auxiliary lemmas: what each loop computes\<close>

lemma get_nowait_Min:
  "get_nowait q = (if q = [] then Inl Empty else Inr (Min (set q), remove1 (Min (set q)) q))"
proof (cases q)
  case Nil
  then show ?thesis by simp
next
  case (Cons x xs)
  have "fold min xs x = Min (insert x (set xs))"
    using Min.set_eq_fold [of x xs] by simp
  then show ?thesis using Cons by (simp add: Let_def)
qed

lemma broadcast_loop_eq:
  "broadcast_loop ig d ps s =
     (write_outcome (transport_raises s) (filter (\<lambda>p. p \<notin> set ig) ps),
      s\<lparr>trace := trace s @ map (\<lambda>p. Write p (wrap_message ''MR'' (Some d)))
               (delivered (transport_raises s) (filter (\<lambda>p. p \<notin> set ig) ps))\<rparr>)"
proof (induction ps arbitrary: s)
  case Nil
  show ?case by simp
next
  case (Cons p ps)
  show ?case
  proof (cases "p \<in> set ig")
    case True
    then show ?thesis using Cons.IH [of s] by simp
  next
    case False
    show ?thesis
    proof (cases "transport_raises s p")
      case None
      then show ?thesis using False Cons.IH [of "s\<lparr>trace := trace s @ [Write p (wrap_message ''MR'' (Some d))]\<rparr>"]
        by (simp add: transport_write_def)
    next
      case (Some e)
      then show ?thesis using False by (simp add: transport_write_def)
    qed
  qed
qed

lemma ping_loop_eq:
  "ping_loop ps s =
     (write_outcome (transport_raises s) ps,
      s\<lparr>trace := trace s @ map (\<lambda>p. Write p (wrap_message ''PING'' None))
               (delivered (transport_raises s) ps)\<rparr>)"
proof (induction ps arbitrary: s)
  case Nil
  show ?case by simp
next
  case (Cons p ps)
  show ?case
  proof (cases "transport_raises s p")
    case None
    then show ?thesis using Cons.IH [of "s\<lparr>trace := trace s @ [Write p (wrap_message ''PING'' None)]\<rparr>"]
      by (simp add: transport_write_def)
  next
    case (Some e)
    then show ?thesis by (simp add: transport_write_def)
  qed
qed

lemma RFM_loop_eq:
  assumes "requested_hash s (mr_hash data) = Some mr"
  shows "RFM_loop data mr ps s =
     (case find (\<lambda>p. p \<notin> set (already_requested_peers mr)) ps of
        None \<Rightarrow> (Returned, s\<lparr>requested_hash := (requested_hash s)(mr_hash data := None)\<rparr>)
      | Some p \<Rightarrow>
          (case transport_raises s p of
             Some e \<Rightarrow>
               (Raised e,
                s\<lparr>requested_hash := (requested_hash s)(mr_hash data \<mapsto>
                     mr\<lparr>already_requested_peers := already_requested_peers mr @ [p]\<rparr>)\<rparr>)
           | None \<Rightarrow>
               (Returned,
                s\<lparr>requested_hash := (requested_hash s)(mr_hash data \<mapsto>
                     mr\<lparr>already_requested_peers := already_requested_peers mr @ [p],
                        callLater := Some (Suc (length (trace s)))\<rparr>),
                  trace := trace s @ [Write p (wrap_message ''SFM'' (Some data)),
                                     CallLater (message_receipt_timeout s) (Call_RFM data)]\<rparr>)))"
  using assms
  by (induction ps) (auto simp: transport_write_def reactor_callLater_def domI split: option.splits)


lemma RFM_eq:
  assumes "mr_hash data \<notin> dom (hash_msg s)" and "requested_hash s (mr_hash data) = Some mr"
  shows "RFM data s =
     (case find (\<lambda>p. p \<notin> set (already_requested_peers mr)) (peers_connection_list mr) of
        None \<Rightarrow> (Returned, s\<lparr>requested_hash := (requested_hash s)(mr_hash data := None)\<rparr>)
      | Some p \<Rightarrow>
          (case transport_raises s p of
             Some e \<Rightarrow>
               (Raised e,
                s\<lparr>requested_hash := (requested_hash s)(mr_hash data \<mapsto>
                     mr\<lparr>already_requested_peers := already_requested_peers mr @ [p]\<rparr>)\<rparr>)
           | None \<Rightarrow>
               (Returned,
                s\<lparr>requested_hash := (requested_hash s)(mr_hash data \<mapsto>
                     mr\<lparr>already_requested_peers := already_requested_peers mr @ [p],
                        callLater := Some (Suc (length (trace s)))\<rparr>),
                  trace := trace s @ [Write p (wrap_message ''SFM'' (Some data)),
                                     CallLater (message_receipt_timeout s) (Call_RFM data)]\<rparr>)))"
proof -
  have "RFM data s = RFM_loop data mr (peers_connection_list mr) s"
    using assms by (simp add: RFM_def Let_def)
  then show ?thesis
    by (simp only: RFM_loop_eq [OF assms(2)])
qed

lemma find_all_asked:
  "set ps \<subseteq> set asked \<Longrightarrow> find (\<lambda>p. p \<notin> set asked) ps = None"
  by (induction ps) auto

section \<open>Claims about \<open>RFM\<close>\<close>

text \<open>
  Claim C7. When \<open>RFM\<close> is invoked for a hash that is not fully known and whose request
  state lists only peers that were already asked, it returns normally, the request state
  of the hash is gone afterwards, and nothing was sent or scheduled: the state changes
  in nothing but the deleted entry.
\<close>

theorem RFM_exhausted_deletes_request_state:
  assumes "mr_hash data \<notin> dom (hash_msg s)"
    and "requested_hash s (mr_hash data) = Some message_request"
    and "set (peers_connection_list message_request) \<subseteq> set (already_requested_peers message_request)"
  shows "RFM data s = (Returned, s\<lparr>requested_hash := (requested_hash s)(mr_hash data := None)\<rparr>)
       \<and> requested_hash (snd (RFM data s)) (mr_hash data) = None
       \<and> trace (snd (RFM data s)) = trace s"
  using RFM_eq [OF assms(1,2)] find_all_asked [OF assms(3)] by simp

text \<open>Two peers announced the hash \<open>[1]\<close> and both have been asked.\<close>

theorem RFM_exhausted_deletes_request_state_witness:
  "RFM (BK_request [1])
     (idle_node\<lparr>requested_hash := [[1] \<mapsto> (announced_by [1, 2])\<lparr>already_requested_peers := [1, 2]\<rparr>]\<rparr>)
   = (Returned, idle_node\<lparr>requested_hash := Map.empty\<rparr>)"
proof -
  let ?s = "idle_node\<lparr>requested_hash := [[1] \<mapsto> (announced_by [1, 2])\<lparr>already_requested_peers := [1, 2]\<rparr>]\<rparr>"
  have 1: "mr_hash (BK_request [1]) \<notin> dom (hash_msg ?s)"
    by (simp add: BK_request_def idle_node_def)
  have 2: "requested_hash ?s (mr_hash (BK_request [1])) =
             Some ((announced_by [1, 2])\<lparr>already_requested_peers := [1, 2]\<rparr>)"
    by (simp add: BK_request_def new_MR_def)
  have 3: "set (peers_connection_list ((announced_by [1, 2])\<lparr>already_requested_peers := [1, 2]\<rparr>))
             \<subseteq> set (already_requested_peers ((announced_by [1, 2])\<lparr>already_requested_peers := [1, 2]\<rparr>))"
    by (simp add: announced_by_def)
  show ?thesis
    using RFM_exhausted_deletes_request_state [OF 1 2 3]
    by (simp add: BK_request_def new_MR_def)
qed

text \<open>
  Claim C2, as amended. When \<open>RFM\<close> is invoked for a hash that is not fully known and
  has no request state (as when a retry timer fires after the request state was
  deleted), it sends nothing and changes no state, and it raises \<open>KeyError\<close> for the hash:
  line 92 indexes \<open>requested_hash\<close> without testing for the key.
\<close>

theorem RFM_without_request_state_raises:
  assumes "mr_hash data \<notin> dom (hash_msg s)"
    and "requested_hash s (mr_hash data) = None"
  shows "RFM data s = (Raised (KeyError (mr_hash data)), s)"
  using assms by (simp add: RFM_def)

theorem RFM_without_request_state_raises_witness:
  "RFM (BK_request [1]) idle_node = (Raised (KeyError [1]), idle_node)"
proof -
  have 1: "mr_hash (BK_request [1]) \<notin> dom (hash_msg idle_node)"
    by (simp add: idle_node_def)
  have 2: "requested_hash idle_node (mr_hash (BK_request [1])) = None"
    by (simp add: idle_node_def)
  show ?thesis
    using RFM_without_request_state_raises [OF 1 2] by (simp add: BK_request_def new_MR_def)
qed

text \<open>
  Claim C2 as stated says that such an invocation never surfaces an error. On the idle
  node the hash \<open>[1]\<close> is neither fully known nor requested, and \<open>RFM\<close> raises.
\<close>

theorem stale_RFM_surfaces_KeyError:
  "[1] \<notin> dom (hash_msg idle_node) \<and> requested_hash idle_node [1] = None
   \<and> fst (RFM (BK_request [1]) idle_node) = Raised (KeyError [1])"
  by (simp add: RFM_def idle_node_def BK_request_def new_MR_def)

section \<open>Claims about \<open>select_best_bkmr\<close>\<close>


lemma RFM_raised_trace:
  assumes "RFM data s = (Raised e, s1)"
  shows "trace s1 = trace s"
proof (cases "mr_hash data \<in> dom (hash_msg s)")
  case True
  then show ?thesis using assms by (simp add: RFM_def Let_def)
next
  case False
  show ?thesis
  proof (cases "requested_hash s (mr_hash data)")
    case None
    then show ?thesis using False assms by (auto simp: RFM_def Let_def)
  next
    case (Some mr)
    show ?thesis
      using assms by (auto simp: RFM_eq [OF False Some] split: option.splits)
  qed
qed


lemma select_best_bkmr_try_pruned:
  assumes "bkmr_priorityq s \<noteq> []"
    and "Min (set (bkmr_priorityq s)) = (dscore, dhash)"
    and "bkmr_blocknumber s \<le> height s"
    and "get_block_score s (bkmr_blocknumber s) = Inr oldscore"
    and "oldscore < dscore"
  shows "select_best_bkmr_try s = (Returned, s\<lparr>bkmr_priorityq := []\<rparr>)"
  using assms by (simp add: select_best_bkmr_try_def get_nowait_Min Let_def)

lemma select_best_bkmr_try_request:
  assumes "bkmr_priorityq s \<noteq> []"
    and "Min (set (bkmr_priorityq s)) = (dscore, dhash)"
    and "height s < bkmr_blocknumber s
         \<or> get_block_score s (bkmr_blocknumber s) = Inr oldscore \<and> dscore \<le> oldscore"
  shows "select_best_bkmr_try s =
           request_and_reschedule dhash
             (s\<lparr>bkmr_priorityq := remove1 (dscore, dhash) (bkmr_priorityq s)\<rparr>)"
  using assms by (auto simp: select_best_bkmr_try_def get_nowait_Min Let_def)

text \<open>
  Claim C4. When the queue is not empty, the tracked block number is at most the
  chain's height and the score of the least candidate is greater than the chain's
  accepted score at that height, the step empties the queue and does nothing else:
  no write (so no full-message request), no \<open>callLater\<close> (so no rescheduling), and
  the timer reference stays as it was.
\<close>

theorem select_prunes_whole_queue:
  assumes "bkmr_priorityq s \<noteq> []"
    and "Min (set (bkmr_priorityq s)) = (dscore, dhash)"
    and "bkmr_blocknumber s \<le> height s"
    and "get_block_score s (bkmr_blocknumber s) = Inr oldscore"
    and "oldscore < dscore"
  shows "select_best_bkmr s = s\<lparr>bkmr_priorityq := []\<rparr>
       \<and> bkmr_priorityq (select_best_bkmr s) = []
       \<and> trace (select_best_bkmr s) = trace s
       \<and> bkmr_processor (select_best_bkmr s) = bkmr_processor s"
  by (simp add: select_best_bkmr_def select_best_bkmr_try_pruned [OF assms])

text \<open>The spec's example: accepted score 50, queue entries \<open>(60, [1])\<close> and \<open>(70, [2])\<close>.\<close>

theorem select_prunes_whole_queue_witness:
  "select_best_bkmr (idle_node\<lparr>bkmr_priorityq := [(60, [1]), (70, [2])]\<rparr>) = idle_node
   \<and> trace (select_best_bkmr (idle_node\<lparr>bkmr_priorityq := [(60, [1]), (70, [2])]\<rparr>)) = []"
proof -
  let ?s = "idle_node\<lparr>bkmr_priorityq := [(60, [1]), (70, [2])]\<rparr>"
  have 1: "bkmr_priorityq ?s \<noteq> []" by simp
  have 2: "Min (set (bkmr_priorityq ?s)) = (60, [1])" by simp
  have 3: "bkmr_blocknumber ?s \<le> height ?s" by (simp add: idle_node_def)
  have 4: "get_block_score ?s (bkmr_blocknumber ?s) = Inr 50" by (simp add: idle_node_def)
  have 5: "(50::int) < 60" by simp
  show ?thesis
    using select_prunes_whole_queue [OF 1 2 3 4 5] by (simp add: idle_node_def)
qed


lemma request_and_reschedule_eq:
  assumes "RFM (BK_request dhash) s = (r, s1)"
  shows "request_and_reschedule dhash s =
     (case r of
        Returned \<Rightarrow>
          (Returned, s1\<lparr>trace := trace s1 @ [CallLater 5 Call_select_best_bkmr],
                          bkmr_processor := length (trace s1)\<rparr>)
      | Raised e \<Rightarrow> (Raised e, s1))"
  using assms
  by (simp add: request_and_reschedule_def BK_request_def reactor_callLater_def Let_def
      split: outcome.splits)







text \<open>
  Claim C5, as amended. When the queue is not empty and either the tracked block
  number exceeds the chain's height, or the score of the least candidate is at most
  the chain's accepted score at the tracked height, the step pops that candidate
  and invokes \<open>RFM\<close> for its hash (with type \<open>BK\<close>). If \<open>RFM\<close> returns, the step then
  schedules itself again after 5 time units and stores the new timer; the scheduling
  event follows everything \<open>RFM\<close> did. If \<open>RFM\<close> raises, the step schedules nothing:
  it catches the exception (and logs it, unless it is \<open>queue.Empty\<close>).
\<close>

theorem select_requests_and_rearms_when_RFM_returns:
  assumes "bkmr_priorityq s \<noteq> []"
    and "Min (set (bkmr_priorityq s)) = (dscore, dhash)"
    and "height s < bkmr_blocknumber s
         \<or> get_block_score s (bkmr_blocknumber s) = Inr oldscore \<and> dscore \<le> oldscore"
    and "RFM (BK_request dhash)
           (s\<lparr>bkmr_priorityq := remove1 (dscore, dhash) (bkmr_priorityq s)\<rparr>) = (r, s1)"
  shows "select_best_bkmr s =
     (case r of
        Returned \<Rightarrow>
          s1\<lparr>trace := trace s1 @ [CallLater 5 Call_select_best_bkmr],
             bkmr_processor := length (trace s1)\<rparr>
      | Raised e \<Rightarrow>
          if e = Empty then s1
          else s1\<lparr>trace := trace s1 @
                 [Log_error ''select_best_bkmr Unexpected Exception'', Log_error_exn e]\<rparr>)"
proof -
  have "select_best_bkmr_try s =
     (case r of
        Returned \<Rightarrow>
          (Returned, s1\<lparr>trace := trace s1 @ [CallLater 5 Call_select_best_bkmr],
                          bkmr_processor := length (trace s1)\<rparr>)
      | Raised e \<Rightarrow> (Raised e, s1))"
    using select_best_bkmr_try_request [OF assms(1,2,3)] request_and_reschedule_eq [OF assms(4)]
    by simp
  then show ?thesis
  proof (cases r)
    case Returned
    then show ?thesis
      using \<open>select_best_bkmr_try s = _\<close> by (simp add: select_best_bkmr_def)
  next
    case (Raised e)
    then show ?thesis
      using \<open>select_best_bkmr_try s = _\<close> by (cases e) (simp_all add: select_best_bkmr_def)
  qed
qed

text \<open>
  The spec's example: accepted score 50 and the queue entry \<open>(40, [1])\<close>, for a hash
  that the peers 2 and 3 announced. The step asks peer 2, arms the receipt timer and
  then re-arms itself.
\<close>

theorem select_requests_and_rearms_when_RFM_returns_witness:
  "trace (select_best_bkmr
      (idle_node\<lparr>bkmr_priorityq := [(40, [1])],
                 requested_hash := [[1] \<mapsto> announced_by [2, 3]]\<rparr>)) =
     [Write 2 (wrap_message ''SFM'' (Some (BK_request [1]))),
      CallLater 10 (Call_RFM (BK_request [1])),
      CallLater 5 Call_select_best_bkmr]
   \<and> bkmr_processor (select_best_bkmr
      (idle_node\<lparr>bkmr_priorityq := [(40, [1])],
                 requested_hash := [[1] \<mapsto> announced_by [2, 3]]\<rparr>)) = 2"
proof -
  let ?s = "idle_node\<lparr>bkmr_priorityq := [(40, [1])],
                      requested_hash := [[1] \<mapsto> announced_by [2, 3]]\<rparr>"
  let ?s1 = "idle_node\<lparr>bkmr_priorityq := [],
      requested_hash := [[1] \<mapsto> (announced_by [2, 3])\<lparr>already_requested_peers := [2],
                                     callLater := Some 1\<rparr>],
      trace := [Write 2 (wrap_message ''SFM'' (Some (BK_request [1]))),
                CallLater 10 (Call_RFM (BK_request [1]))]\<rparr>"
  have 1: "bkmr_priorityq ?s \<noteq> []" by simp
  have 2: "Min (set (bkmr_priorityq ?s)) = (40, [1])" by simp
  have 3: "height ?s < bkmr_blocknumber ?s
           \<or> get_block_score ?s (bkmr_blocknumber ?s) = Inr 50 \<and> (40::int) \<le> 50"
    by (simp add: idle_node_def)
  have 4: "RFM (BK_request [1]) (?s\<lparr>bkmr_priorityq := remove1 (40, [1]) (bkmr_priorityq ?s)\<rparr>)
             = (Returned, ?s1)"
    by (simp add: RFM_def BK_request_def new_MR_def idle_node_def announced_by_def
        transport_write_def reactor_callLater_def Let_def)
  show ?thesis
    using select_requests_and_rearms_when_RFM_returns [OF 1 2 3 4]
    by (simp add: idle_node_def)
qed

text \<open>
  Claim C5 as stated says that the step always re-arms the timer in this case. With
  accepted score 50 and the queue entry \<open>(40, [1])\<close> for a hash that has no request
  state (and is not fully known), \<open>RFM\<close> raises \<open>KeyError\<close>; the step logs it and
  schedules nothing.
\<close>

theorem select_not_rearmed_when_RFM_raises:
  "bkmr_priorityq (idle_node\<lparr>bkmr_priorityq := [(40, [1])]\<rparr>) \<noteq> []
   \<and> Min (set (bkmr_priorityq (idle_node\<lparr>bkmr_priorityq := [(40, [1])]\<rparr>))) = (40, [1])
   \<and> get_block_score (idle_node\<lparr>bkmr_priorityq := [(40, [1])]\<rparr>)
        (bkmr_blocknumber (idle_node\<lparr>bkmr_priorityq := [(40, [1])]\<rparr>)) = Inr 50
   \<and> trace (select_best_bkmr (idle_node\<lparr>bkmr_priorityq := [(40, [1])]\<rparr>)) =
       [Log_error ''select_best_bkmr Unexpected Exception'', Log_error_exn (KeyError [1])]
   \<and> CallLater 5 Call_select_best_bkmr \<notin>
       set (trace (select_best_bkmr (idle_node\<lparr>bkmr_priorityq := [(40, [1])]\<rparr>)))"
  by (simp add: select_best_bkmr_def select_best_bkmr_try_def request_and_reschedule_def
      RFM_def new_MR_def idle_node_def Let_def)

section \<open>Claims about \<open>broadcast\<close>, \<open>ping_peers\<close> and \<open>register_and_broadcast\<close>\<close>

lemma broadcast_eq:
  "broadcast msg_hash msg_type data s =
     (write_outcome (transport_raises s)
        (filter (\<lambda>p. p \<notin> set (ignore_peers_of msg_hash s)) (peer_connections s)),
      s\<lparr>trace := trace s @
           map (\<lambda>p. Write p (wrap_message ''MR'' (Some (announce_of msg_hash msg_type data))))
             (delivered (transport_raises s)
                (filter (\<lambda>p. p \<notin> set (ignore_peers_of msg_hash s)) (peer_connections s)))\<rparr>)"
  by (simp only: broadcast_def broadcast_loop_eq)

lemma delivered_subset: "set (delivered raises ps) \<subseteq> set ps"
  by (induction ps) (auto split: option.splits)

lemma delivered_all:
  "\<forall>p \<in> set ps. raises p = None \<Longrightarrow> delivered raises ps = ps \<and> write_outcome raises ps = Returned"
  by (induction ps) auto

text \<open>
  Claim C3, as amended. \<open>broadcast\<close> writes the announce to the connected peers that are
  not in the ignore list, in connection order, and \<open>ping_peers\<close> writes the ping to the
  connected peers in connection order (after logging and recording the time); each
  stops at the first write that raises: the peers before it have been written to, the
  peers after it have not, and the exception is the outcome of the call. When no write
  raises, every such peer is written to and the call returns.
\<close>

theorem broadcast_and_ping_stop_at_first_raising_write:
  "broadcast msg_hash msg_type data s =
     (write_outcome (transport_raises s)
        (filter (\<lambda>p. p \<notin> set (ignore_peers_of msg_hash s)) (peer_connections s)),
      s\<lparr>trace := trace s @
           map (\<lambda>p. Write p (wrap_message ''MR'' (Some (announce_of msg_hash msg_type data))))
             (delivered (transport_raises s)
                (filter (\<lambda>p. p \<notin> set (ignore_peers_of msg_hash s)) (peer_connections s)))\<rparr>)
   \<and> ping_peers s =
     (write_outcome (transport_raises s) (peer_connections s),
      s\<lparr>last_ping := Some (time_now s),
        trace := trace s @ Log_info ''<<<Transmitting network PING'' #
           map (\<lambda>p. Write p (wrap_message ''PING'' None))
             (delivered (transport_raises s) (peer_connections s))\<rparr>)"
  by (simp add: broadcast_eq ping_peers_def ping_loop_eq Let_def)

text \<open>
  Claim C3 as stated says that a failed write neither stops the delivery to the other
  peers nor reaches the caller. With the peers 1, 2, 3 connected and the transport of
  peer 2 raising on a write, \<open>broadcast\<close> and \<open>ping_peers\<close> write to peer 1 only,
  never to peer 3, and the exception is their outcome.
\<close>

theorem failed_write_aborts_broadcast_and_ping:
  "broadcast [9] ''TX'' None
      (idle_node\<lparr>transport_raises := (\<lambda>p. if p = 2 then Some (Unexpected ''write'') else None)\<rparr>)
   = (Raised (Unexpected ''write''),
      idle_node\<lparr>transport_raises := (\<lambda>p. if p = 2 then Some (Unexpected ''write'') else None),
                trace := [Write 1 (wrap_message ''MR'' (Some (announce_of [9] ''TX'' None)))]\<rparr>)
   \<and> ping_peers
      (idle_node\<lparr>transport_raises := (\<lambda>p. if p = 2 then Some (Unexpected ''write'') else None)\<rparr>)
   = (Raised (Unexpected ''write''),
      idle_node\<lparr>transport_raises := (\<lambda>p. if p = 2 then Some (Unexpected ''write'') else None),
                last_ping := Some 1000,
                trace := [Log_info ''<<<Transmitting network PING'',
                          Write 1 (wrap_message ''PING'' None)]\<rparr>)"
  by (simp add: broadcast_def ignore_peers_of_def ping_peers_def transport_write_def
      idle_node_def Let_def)

text \<open>
  Claim C8, as amended. The writes that \<open>broadcast\<close> adds are announces to some connected
  peers \<open>ws\<close>. If a request state exists for the hash, no peer of its candidate list is
  among \<open>ws\<close>, and if no write to a connected peer outside that list raises, \<open>ws\<close> are
  exactly the connected peers outside the list and the call returns. If no request
  state exists and no write to a connected peer raises, \<open>ws\<close> are all the connected peers
  and the call returns.
\<close>

theorem broadcast_skips_candidate_peers:
  "\<exists>ws. trace (snd (broadcast msg_hash msg_type data s)) = trace s @
          map (\<lambda>p. Write p (wrap_message ''MR'' (Some (announce_of msg_hash msg_type data)))) ws
      \<and> set ws \<subseteq> set (peer_connections s)
      \<and> (case requested_hash s msg_hash of
            None \<Rightarrow>
              (\<forall>p \<in> set (peer_connections s). transport_raises s p = None) \<longrightarrow>
              ws = peer_connections s \<and> fst (broadcast msg_hash msg_type data s) = Returned
          | Some message_request \<Rightarrow>
              set ws \<inter> set (peers_connection_list message_request) = {}
              \<and> ((\<forall>p \<in> set (peer_connections s).
                     p \<notin> set (peers_connection_list message_request) \<longrightarrow>
                     transport_raises s p = None) \<longrightarrow>
                   ws = filter (\<lambda>p. p \<notin> set (peers_connection_list message_request))
                          (peer_connections s)
                   \<and> fst (broadcast msg_hash msg_type data s) = Returned))"
proof -
  let ?targets = "filter (\<lambda>p. p \<notin> set (ignore_peers_of msg_hash s)) (peer_connections s)"
  let ?ws = "delivered (transport_raises s) ?targets"
  have sub: "set ?ws \<subseteq> set ?targets" by (rule delivered_subset)
  have all: "?ws = ?targets \<and> write_outcome (transport_raises s) ?targets = Returned"
    if "\<forall>p \<in> set ?targets. transport_raises s p = None"
    using that by (rule delivered_all)
  have "trace (snd (broadcast msg_hash msg_type data s)) = trace s @
          map (\<lambda>p. Write p (wrap_message ''MR'' (Some (announce_of msg_hash msg_type data)))) ?ws"
    by (simp add: broadcast_eq)
  moreover have "set ?ws \<subseteq> set (peer_connections s)"
    using sub by auto
  moreover have "case requested_hash s msg_hash of
            None \<Rightarrow>
              (\<forall>p \<in> set (peer_connections s). transport_raises s p = None) \<longrightarrow>
              ?ws = peer_connections s \<and> fst (broadcast msg_hash msg_type data s) = Returned
          | Some message_request \<Rightarrow>
              set ?ws \<inter> set (peers_connection_list message_request) = {}
              \<and> ((\<forall>p \<in> set (peer_connections s).
                     p \<notin> set (peers_connection_list message_request) \<longrightarrow>
                     transport_raises s p = None) \<longrightarrow>
                   ?ws = filter (\<lambda>p. p \<notin> set (peers_connection_list message_request))
                          (peer_connections s)
                   \<and> fst (broadcast msg_hash msg_type data s) = Returned)"
  proof (cases "requested_hash s msg_hash")
    case None
    then have ig: "ignore_peers_of msg_hash s = []" by (simp add: ignore_peers_of_def)
    show ?thesis using None all by (simp add: ig broadcast_eq)
  next
    case (Some mr)
    then have ig: "ignore_peers_of msg_hash s = peers_connection_list mr"
      by (simp add: ignore_peers_of_def)
    have "set ?ws \<inter> set (peers_connection_list mr) = {}"
      using sub by (auto simp: ig)
    then show ?thesis using Some all by (simp add: ig broadcast_eq)
  qed
  ultimately show ?thesis by blast
qed

text \<open>
  Peer 2 announced the hash \<open>[9]\<close>; the node then broadcasts it: peers 1 and 3 get the
  announce and peer 2 does not.
\<close>

theorem broadcast_skips_candidate_peers_witness:
  "trace (snd (broadcast [9] ''TX'' None
      (idle_node\<lparr>requested_hash := [[9] \<mapsto> announced_by [2]]\<rparr>))) =
     [Write 1 (wrap_message ''MR'' (Some (announce_of [9] ''TX'' None))),
      Write 3 (wrap_message ''MR'' (Some (announce_of [9] ''TX'' None)))]
   \<and> fst (broadcast [9] ''TX'' None
      (idle_node\<lparr>requested_hash := [[9] \<mapsto> announced_by [2]]\<rparr>)) = Returned"
proof -
  let ?s = "idle_node\<lparr>requested_hash := [[9] \<mapsto> announced_by [2]]\<rparr>"
  have r: "requested_hash ?s [9] = Some (announced_by [2])" by simp
  have ok: "\<forall>p \<in> set (peer_connections ?s).
              p \<notin> set (peers_connection_list (announced_by [2])) \<longrightarrow> transport_raises ?s p = None"
    by (simp add: idle_node_def)
  have f: "filter (\<lambda>p. p \<notin> set (peers_connection_list (announced_by [2]))) (peer_connections ?s)
             = [1, 3]"
    by (simp add: idle_node_def announced_by_def)
  have e: "trace ?s = []" by (simp add: idle_node_def)
  obtain ws where
    t: "trace (snd (broadcast [9] ''TX'' None ?s)) = trace ?s @
          map (\<lambda>p. Write p (wrap_message ''MR'' (Some (announce_of [9] ''TX'' None)))) ws"
    and c: "(\<forall>p \<in> set (peer_connections ?s).
              p \<notin> set (peers_connection_list (announced_by [2])) \<longrightarrow>
              transport_raises ?s p = None) \<longrightarrow>
            ws = filter (\<lambda>p. p \<notin> set (peers_connection_list (announced_by [2])))
                   (peer_connections ?s)
            \<and> fst (broadcast [9] ''TX'' None ?s) = Returned"
    using broadcast_skips_candidate_peers [of "[9]" "''TX''" None ?s] by (auto simp: r)
  have "ws = [1, 3]" and "fst (broadcast [9] ''TX'' None ?s) = Returned"
    using c ok f by simp_all
  then show ?thesis using t e by simp
qed

text \<open>
  Claim C8 as stated says that every connected peer outside the candidate list is sent
  the announce. Peer 2 announced the hash \<open>[9]\<close> and the transport of peer 1 raises:
  peer 3 is connected and not a candidate, and nothing is written to it.
\<close>

theorem broadcast_misses_peer_after_raising_write:
  "requested_hash
      (idle_node\<lparr>requested_hash := [[9] \<mapsto> announced_by [2]],
        transport_raises := (\<lambda>p. if p = 1 then Some (Unexpected ''write'') else None)\<rparr>) [9]
     = Some (announced_by [2])
   \<and> 3 \<in> set (peer_connections
      (idle_node\<lparr>requested_hash := [[9] \<mapsto> announced_by [2]],
        transport_raises := (\<lambda>p. if p = 1 then Some (Unexpected ''write'') else None)\<rparr>))
   \<and> 3 \<notin> set (peers_connection_list (announced_by [2]))
   \<and> trace (snd (broadcast [9] ''TX'' None
      (idle_node\<lparr>requested_hash := [[9] \<mapsto> announced_by [2]],
        transport_raises := (\<lambda>p. if p = 1 then Some (Unexpected ''write'') else None)\<rparr>))) = []"
  by (simp add: broadcast_def ignore_peers_of_def transport_write_def idle_node_def
      announced_by_def)


text \<open>
  Claim C9. \<open>register_and_broadcast\<close> is \<open>broadcast\<close> run in the state that \<open>register\<close>
  left, in which the registry knows the hash with its payload and type. In the trace,
  the call of \<open>register\<close> is the first event added and every other event added is the
  write of the announce to a peer, so every such write comes after it; the registry
  still knows the hash when the call ends.
\<close>

theorem register_precedes_every_announce:
  "register_and_broadcast msg_type msg_hash msg_json data s =
     broadcast msg_hash msg_type
       (Some ((case data of None \<Rightarrow> new_MR | Some d \<Rightarrow> d)\<lparr>mr_hash := msg_hash, mr_type := msg_type\<rparr>))
       (register msg_hash msg_json msg_type s)
   \<and> hash_msg (register msg_hash msg_json msg_type s) msg_hash = Some (msg_json, msg_type)
   \<and> (\<exists>ws. trace (snd (register_and_broadcast msg_type msg_hash msg_json data s)) =
          trace s @ Register msg_hash msg_json msg_type #
          map (\<lambda>p. Write p (wrap_message ''MR''
                 (Some ((case data of None \<Rightarrow> new_MR | Some d \<Rightarrow> d)
                          \<lparr>mr_hash := msg_hash, mr_type := msg_type\<rparr>)))) ws)
   \<and> hash_msg (snd (register_and_broadcast msg_type msg_hash msg_json data s)) msg_hash =
       Some (msg_json, msg_type)"
proof -
  let ?d = "(case data of None \<Rightarrow> new_MR | Some d \<Rightarrow> d)\<lparr>mr_hash := msg_hash, mr_type := msg_type\<rparr>"
  let ?s1 = "register msg_hash msg_json msg_type s"
  have 1: "register_and_broadcast msg_type msg_hash msg_json data s =
             broadcast msg_hash msg_type (Some ?d) ?s1"
    by (simp add: register_and_broadcast_def Let_def)
  have 2: "hash_msg ?s1 msg_hash = Some (msg_json, msg_type)"
    and 3: "trace ?s1 = trace s @ [Register msg_hash msg_json msg_type]"
    by (simp_all add: register_def)
  have 4: "trace (snd (broadcast msg_hash msg_type (Some ?d) ?s1)) =
             trace ?s1 @ map (\<lambda>p. Write p (wrap_message ''MR'' (Some ?d)))
               (delivered (transport_raises ?s1)
                  (filter (\<lambda>p. p \<notin> set (ignore_peers_of msg_hash ?s1)) (peer_connections ?s1)))"
    by (simp add: broadcast_eq announce_of_def)
  have 5: "hash_msg (snd (broadcast msg_hash msg_type (Some ?d) ?s1)) = hash_msg ?s1"
    by (simp add: broadcast_eq)
  have "\<exists>ws. trace (snd (register_and_broadcast msg_type msg_hash msg_json data s)) =
          trace s @ Register msg_hash msg_json msg_type #
          map (\<lambda>p. Write p (wrap_message ''MR'' (Some ?d))) ws"
    using 1 3 4 by auto
  then show ?thesis using 1 2 5 by simp
qed

text \<open>
  Claim C10. \<open>broadcast\<close> changes nothing but the trace, to which it adds only writes of
  the announce: the registry's table of known messages, the request table (so every
  entry's candidate list, asked list and timer reference) and the list of
  connections are the same after the call, and so is every other field.
\<close>

theorem broadcast_changes_only_the_trace:
  "(snd (broadcast msg_hash msg_type data s))\<lparr>trace := trace s\<rparr> = s
   \<and> hash_msg (snd (broadcast msg_hash msg_type data s)) = hash_msg s
   \<and> requested_hash (snd (broadcast msg_hash msg_type data s)) = requested_hash s
   \<and> peer_connections (snd (broadcast msg_hash msg_type data s)) = peer_connections s
   \<and> (\<exists>ws. trace (snd (broadcast msg_hash msg_type data s)) = trace s @
          map (\<lambda>p. Write p (wrap_message ''MR'' (Some (announce_of msg_hash msg_type data)))) ws)"
  by (auto simp: broadcast_eq)

section \<open>The order in which \<open>RFM\<close> asks the candidates\<close>


lemma set_candidates: "set (candidates ps) = set ps"
  by (induction ps rule: candidates.induct) auto

lemma distinct_candidates: "distinct (candidates ps)"
  by (induction ps rule: candidates.induct) (auto simp: set_candidates)














end
